theory Spec2Isabelle
  imports Main "HOL-Library.Word"
begin

section \<open>Go library functions called by the binding layer\<close>

text \<open>
  The package \<open>ffmpeg\<close> (file \<open>ffmpeg.go\<close>) calls \<open>strings.Split\<close>,
  \<open>strings.Replace\<close>, \<open>strconv.Atoi\<close> and \<open>fmt.Sprintf\<close>. They are
  modelled here as Go defines them, for the arguments the package passes:
  one-byte separators, a replacement count of 1, the verb \<open>%v\<close> on a loop index and
  on a string. Go strings are byte sequences, as \<open>string\<close> is here.
  The Go type \<open>int\<close> is taken to be 64 bits wide.
\<close>

datatype num_err = ErrSyntax | ErrRange

text \<open>
  Go errors. \<open>ErrTranscoderRes\<close> is the package variable of that name;
  \<open>ErrorNew\<close> is any other value made by \<open>errors.New\<close> (the values stored in
  \<open>ErrorMap\<close>); \<open>NumError\<close> is \<open>*strconv.NumError\<close> with its fields
  \<open>Func\<close>, \<open>Num\<close> and \<open>Err\<close>.
\<close>

datatype error = ErrTranscoderRes | ErrorNew string | NumError string string num_err

text \<open>\<open>strings.Split(s, sep)\<close> for a separator \<open>sep\<close> of one byte.\<close>

fun Split :: "string \<Rightarrow> char \<Rightarrow> string list" where
  "Split [] sep = [[]]"
| "Split (c # cs) sep =
     (if c = sep then [] # Split cs sep
      else (case Split cs sep of
              [] \<Rightarrow> [[c]]
            | y # ys \<Rightarrow> (c # y) # ys))"

text \<open>\<open>strings.Replace(s, old, new, 1)\<close> for \<open>old\<close> of one byte: only the
  first occurrence is replaced.\<close>

fun Replace :: "string \<Rightarrow> char \<Rightarrow> string \<Rightarrow> string" where
  "Replace [] old new = []"
| "Replace (c # cs) old new =
     (if c = old then new @ cs else c # Replace cs old new)"

definition is_digit :: "char \<Rightarrow> bool" where
  "is_digit c = (48 \<le> (of_char c :: nat) \<and> (of_char c :: nat) \<le> 57)"

definition digit_val :: "char \<Rightarrow> nat" where
  "digit_val c = (of_char c :: nat) - 48"

definition maxUint64 :: nat where
  "maxUint64 = 18446744073709551615"

text \<open>The digit loop of \<open>strconv.ParseUint(s, 10, 64)\<close>: a byte that is no digit is a
  syntax error, an overflow of the accumulator a range error, whichever the scan
  meets first.\<close>

fun ParseUint_loop :: "nat \<Rightarrow> string \<Rightarrow> num_err + nat" where
  "ParseUint_loop n [] = Inr n"
| "ParseUint_loop n (c # cs) =
     (if \<not> is_digit c then Inl ErrSyntax
      else if n \<ge> maxUint64 div 10 + 1 then Inl ErrRange
      else (let n1 = n * 10 + digit_val c
            in if n1 > maxUint64 then Inl ErrRange else ParseUint_loop n1 cs))"

definition ParseUint :: "string \<Rightarrow> num_err + nat" where
  "ParseUint s = (if s = [] then Inl ErrSyntax else ParseUint_loop 0 s)"

text \<open>\<open>strconv.ParseInt(s, 10, 0)\<close>; the result is the error kind or the value.\<close>

definition ParseInt :: "string \<Rightarrow> num_err + int" where
  "ParseInt s =
     (case s of
        [] \<Rightarrow> Inl ErrSyntax
      | c # cs \<Rightarrow>
          (let neg = (c = CHR ''-'');
               body = (if c = CHR ''+'' \<or> c = CHR ''-'' then cs else s)
           in case ParseUint body of
                Inl ErrSyntax \<Rightarrow> Inl ErrSyntax
              | Inl ErrRange \<Rightarrow> Inl ErrRange
              | Inr un \<Rightarrow>
                  if \<not> neg \<and> un \<ge> 2 ^ 63 then Inl ErrRange
                  else if neg \<and> un > 2 ^ 63 then Inl ErrRange
                  else Inr (if neg then - int un else int un)))"

text \<open>The digit loop of the fast path of \<open>strconv.Atoi\<close>.\<close>

fun Atoi_fast_loop :: "nat \<Rightarrow> string \<Rightarrow> num_err + nat" where
  "Atoi_fast_loop n [] = Inr n"
| "Atoi_fast_loop n (c # cs) =
     (if \<not> is_digit c then Inl ErrSyntax
      else Atoi_fast_loop (n * 10 + digit_val c) cs)"

text \<open>\<open>strconv.Atoi\<close>: the fast path for strings of 1 to 18 bytes, \<open>ParseInt\<close>
  otherwise. The error carries the function name \<open>Atoi\<close> and the whole input.\<close>

definition Atoi :: "string \<Rightarrow> error + int" where
  "Atoi s =
     (if 0 < length s \<and> length s < 19 then
        (let signed = (hd s = CHR ''-'' \<or> hd s = CHR ''+'');
             body = (if signed then tl s else s)
         in if signed \<and> length body < 1 then Inl (NumError ''Atoi'' s ErrSyntax)
            else (case Atoi_fast_loop 0 body of
                    Inl e \<Rightarrow> Inl (NumError ''Atoi'' s e)
                  | Inr n \<Rightarrow> Inr (if hd s = CHR ''-'' then - int n else int n)))
      else (case ParseInt s of
              Inl e \<Rightarrow> Inl (NumError ''Atoi'' s e)
            | Inr i \<Rightarrow> Inr i))"

text \<open>\<open>%v\<close> of a non-negative \<open>int\<close>: its decimal digits.\<close>

definition digit_char :: "nat \<Rightarrow> char" where
  "digit_char d = ''0123456789'' ! d"

fun Itoa :: "nat \<Rightarrow> string" where
  "Itoa n = (if n < 10 then [digit_char n] else Itoa (n div 10) @ [digit_char (n mod 10)])"

declare Itoa.simps [simp del]

text \<open>\<open>filepath.Base\<close> on a slash-separated path: trailing slashes are dropped, then
  everything up to the last slash; the empty path gives \<open>.\<close> and a path of slashes
  only gives \<open>/\<close>. The source of \<open>Transcode\<close> does not call it; it is what the
  tests of the package expect of the output name.\<close>

definition Base :: "string \<Rightarrow> string" where
  "Base path =
     (if path = [] then ''.''
      else (let p = rev (dropWhile (\<lambda>c. c = CHR ''/'') (rev path))
            in if p = [] then ''/''
               else rev (takeWhile (\<lambda>c. c \<noteq> CHR ''/'') (rev p))))"

section \<open>The binding layer: \<open>ffmpeg.go\<close>\<close>

text \<open>
  \<open>VideoProfile\<close> is declared outside \<open>ffmpeg.go\<close>; the fields are the ones
  \<open>Transcode\<close> reads. \<open>Framerate\<close> is a Go \<open>uint\<close>.
\<close>

record VideoProfile =
  Resolution :: string
  Bitrate :: string
  Framerate :: "64 word"

text \<open>The C structs \<open>AVRational\<close> and \<open>output_params\<close>; every \<open>C.int\<close> is a
  32-bit word, so \<open>C.int(x)\<close> truncates.\<close>

record AVRational =
  num :: "32 word"
  den :: "32 word"

record output_params =
  fname :: string
  fps :: AVRational
  width :: "32 word"
  height :: "32 word"
  bitrate :: "32 word"

text \<open>
  The media runtime is reached through two C functions. A call is recorded with
  its arguments; the return code of a call is given by a function \<open>rt\<close> that the
  model takes as a parameter. The state also counts the C strings made by
  \<open>C.CString\<close> and not yet released by \<open>C.free\<close>.
\<close>

datatype runtime_call =
  Call_lpms_rtmp2hls string string string string
| Call_lpms_transcode string "output_params list"

record world =
  calls :: "runtime_call list"
  cstrings :: nat

text \<open>A Go call either returns its \<open>error\<close> result (\<open>None\<close> is \<open>nil\<close>) or
  panics.\<close>

datatype go_result = Returns "error option" | Panics

text \<open>\<open>ErrorMap\<close> is declared outside \<open>ffmpeg.go\<close>; it is a parameter. Indexing
  a Go map with a missing key gives the zero value, the \<open>nil\<close> error.\<close>

type_synonym error_map = "int \<Rightarrow> error option"

definition RTMPToHLS ::
  "(runtime_call \<Rightarrow> int) \<Rightarrow> error_map \<Rightarrow> string \<Rightarrow> string \<Rightarrow> string \<Rightarrow> string \<Rightarrow> world
     \<Rightarrow> go_result \<times> world" where
  "RTMPToHLS rt ErrorMap localRTMPUrl outM3U8 tmpl seglen_secs wd =
     (let wd1 = wd\<lparr>cstrings := cstrings wd + 4\<rparr>;
          c = Call_lpms_rtmp2hls localRTMPUrl outM3U8 tmpl seglen_secs;
          ret = rt c;
          wd2 = wd1\<lparr>calls := calls wd1 @ [c]\<rparr>;
          wd3 = wd2\<lparr>cstrings := cstrings wd2 - 4\<rparr>
      in if 0 \<noteq> ret then (Returns (ErrorMap ret), wd3)
         else (Returns None, wd3))"

text \<open>\<open>fmt.Sprintf("out%v%v", i, input)\<close>.\<close>

definition oname :: "nat \<Rightarrow> string \<Rightarrow> string" where
  "oname i input = ''out'' @ Itoa i @ input"

text \<open>The bitrate of a profile: \<open>strings.Replace(param.Bitrate, "k", "000", 1)\<close>
  and then \<open>strconv.Atoi\<close>.\<close>

definition parse_bitrate :: "string \<Rightarrow> error + int" where
  "parse_bitrate b = Atoi (Replace b (CHR ''k'') ''000'')"

text \<open>One iteration of the loop of \<open>Transcode\<close>, for the profile at index \<open>i\<close>:
  the error it returns with, or the element \<open>params[i]\<close>.\<close>

definition profile_params :: "string \<Rightarrow> nat \<Rightarrow> VideoProfile \<Rightarrow> error + output_params" where
  "profile_params input i param =
     (let res = Split (Resolution param) (CHR ''x'')
      in if length res < 2 then Inl ErrTranscoderRes
         else (case Atoi (res ! 0) of
                 Inl err \<Rightarrow> Inl err
               | Inr w \<Rightarrow>
                  (case Atoi (res ! 1) of
                     Inl err \<Rightarrow> Inl err
                   | Inr h \<Rightarrow>
                      (case parse_bitrate (Bitrate param) of
                         Inl err \<Rightarrow> Inl err
                       | Inr br \<Rightarrow>
                          Inr \<lparr>fname = oname i input,
                               fps = \<lparr>num = ucast (Framerate param), den = 1\<rparr>,
                               width = word_of_int w,
                               height = word_of_int h,
                               bitrate = word_of_int br\<rparr>))))"

text \<open>The loop \<open>for i, param := range ps\<close>. Each iteration allocates the C string
  of the output name before anything is checked; a return from inside the loop
  releases nothing.\<close>

fun build_params ::
  "string \<Rightarrow> nat \<Rightarrow> VideoProfile list \<Rightarrow> world \<Rightarrow> (error + output_params list) \<times> world" where
  "build_params input i [] wd = (Inr [], wd)"
| "build_params input i (param # ps) wd =
     (let wd1 = wd\<lparr>cstrings := cstrings wd + 1\<rparr>
      in case profile_params input i param of
           Inl err \<Rightarrow> (Inl err, wd1)
         | Inr p \<Rightarrow>
            (case build_params input (i + 1) ps wd1 of
               (Inl err, wd2) \<Rightarrow> (Inl err, wd2)
             | (Inr rest, wd2) \<Rightarrow> (Inr (p # rest), wd2)))"

text \<open>\<open>Transcode\<close>. With no profile, \<open>&params[0]\<close> indexes an empty slice and
  the call panics before the runtime is reached.\<close>

definition Transcode ::
  "(runtime_call \<Rightarrow> int) \<Rightarrow> error_map \<Rightarrow> string \<Rightarrow> VideoProfile list \<Rightarrow> world
     \<Rightarrow> go_result \<times> world" where
  "Transcode rt ErrorMap input ps wd =
     (let wd0 = wd\<lparr>cstrings := cstrings wd + 1\<rparr>
      in case build_params input 0 ps wd0 of
           (Inl err, wd1) \<Rightarrow> (Returns (Some err), wd1)
         | (Inr params, wd1) \<Rightarrow>
             if params = [] then (Panics, wd1)
             else (let c = Call_lpms_transcode input params;
                       ret = rt c;
                       wd2 = wd1\<lparr>calls := calls wd1 @ [c]\<rparr>;
                       wd3 = wd2\<lparr>cstrings := cstrings wd2 - 1\<rparr>
                   in if 0 \<noteq> ret then (Returns (ErrorMap ret), wd3)
                      else (Returns None, wd3)))"

section \<open>The filter stage: aspect ratio\<close>



section \<open>The segmenter and the decoder session: late packets\<close>

text \<open>Modelled from the spec: the types of the streams of an input.\<close>

datatype media_type = Video | Audio | Subtitle | Data

text \<open>Modelled from the spec: a demuxed packet, the index of its input stream and its DTS in the time
  base of the container.\<close>

record packet =
  stream_index :: nat
  dts :: int

text \<open>
  Modelled from the spec: the drop-late-packet policy of the decoder session
  (4.2) and of the segmenter (4.6), which are implemented in the C part of the
  package, not among the sources. \<open>streams\<close> gives the type of each input
  stream, \<open>prev\<close> the DTS last accepted on each stream. A packet of a video
  stream whose DTS is less than the previous DTS of its stream is late. The
  previous DTS is the one of the last packet that was passed on: a discarded
  packet does not advance what is remembered (4.2), and the packets of an
  output are monotone (5).
\<close>

definition is_late :: "(nat \<Rightarrow> media_type) \<Rightarrow> (nat \<Rightarrow> int option) \<Rightarrow> packet \<Rightarrow> bool" where
  "is_late streams prev p =
     (streams (stream_index p) = Video \<and>
      (case prev (stream_index p) of None \<Rightarrow> False | Some d \<Rightarrow> dts p < d))"

text \<open>
  Modelled from the spec: the packets that are passed on (to the decoder, or to
  the output of the segmenter). A late packet is discarded and the remembered
  DTS is not advanced; every other packet is passed on and its DTS remembered.
\<close>

fun drop_late :: "(nat \<Rightarrow> media_type) \<Rightarrow> (nat \<Rightarrow> int option) \<Rightarrow> packet list \<Rightarrow> packet list" where
  "drop_late streams prev [] = []"
| "drop_late streams prev (p # ps) =
     (if is_late streams prev p then drop_late streams prev ps
      else p # drop_late streams (prev(stream_index p := Some (dts p))) ps)"

text \<open>Modelled from the spec: the DTS remembered for each stream after a list of
  packets.\<close>

fun dts_after :: "(nat \<Rightarrow> media_type) \<Rightarrow> (nat \<Rightarrow> int option) \<Rightarrow> packet list \<Rightarrow> (nat \<Rightarrow> int option)" where
  "dts_after streams prev [] = prev"
| "dts_after streams prev (p # ps) =
     (if is_late streams prev p then dts_after streams prev ps
      else dts_after streams (prev(stream_index p := Some (dts p))) ps)"

text \<open>Modelled from the spec: the packets of one input stream.\<close>

definition on_stream :: "nat \<Rightarrow> packet list \<Rightarrow> packet list" where
  "on_stream s ps = filter (\<lambda>p. stream_index p = s) ps"

section \<open>The segmenter: stream order\<close>

text \<open>Modelled from the spec: the index of the first stream of a type in the list
  of input streams.\<close>

fun find_stream :: "media_type \<Rightarrow> media_type list \<Rightarrow> nat option" where
  "find_stream t [] = None"
| "find_stream t (x # xs) =
     (if x = t then Some 0 else map_option Suc (find_stream t xs))"





section \<open>The segmenter: rolling playlist\<close>





text \<open>Modelled from the spec: the segment boundaries (4.6). A new segment starts at
  the next key frame on or after the cumulative duration
  \<open>segmentSeconds * segmentCount\<close>. The key frames are given by their times in
  milliseconds, in order; \<open>n\<close> is the number of segments started so far.\<close>

fun count_segments :: "nat \<Rightarrow> nat \<Rightarrow> nat list \<Rightarrow> nat" where
  "count_segments segmentSeconds n [] = n"
| "count_segments segmentSeconds n (t # ts) =
     (if 1000 * segmentSeconds * n \<le> t
      then count_segments segmentSeconds (Suc n) ts
      else count_segments segmentSeconds n ts)"



section \<open>The transcode orchestrator: statistics\<close>

text \<open>Modelled from the spec: a frame with its resolution, and the types of the
  statistics (3, 4.5) that the tests read as \<open>Decoded\<close> and \<open>Encoded\<close>.\<close>

record frame =
  frame_width :: nat
  frame_height :: nat

record MediaInfo =
  Frames :: nat
  Pixels :: nat

record TranscodeResults =
  Decoded :: MediaInfo
  Encoded :: "MediaInfo list"

text \<open>Modelled from the spec: the statistics of a list of frames (3): the number
  of frames and the sum of width times height over them.\<close>

definition media_info :: "frame list \<Rightarrow> MediaInfo" where
  "media_info fs =
     \<lparr>Frames = length fs, Pixels = sum_list (map (\<lambda>f. frame_width f * frame_height f) fs)\<rparr>"

text \<open>Modelled from the spec: the outputs of one call (4.5, steps 2 to 4). Each
  output is encoded from the decoded frames by \<open>encode\<close>, which stands for the
  filter stage and the encoder of the media runtime and gives the frames that
  were encoded or an error; the first error ends the call.\<close>

fun encode_outputs ::
  "('o \<Rightarrow> frame list \<Rightarrow> error + frame list) \<Rightarrow> 'o list \<Rightarrow> frame list \<Rightarrow> error + MediaInfo list" where
  "encode_outputs encode [] fs = Inr []"
| "encode_outputs encode (out # outs) fs =
     (case encode out fs of
        Inl err \<Rightarrow> Inl err
      | Inr efs \<Rightarrow>
         (case encode_outputs encode outs fs of
            Inl err \<Rightarrow> Inl err
          | Inr rest \<Rightarrow> Inr (media_info efs # rest)))"

text \<open>
  Modelled from the spec: \<open>transcode(inputSpec, [outputSpec])\<close> (4.5, 6), the
  operation that the tests call \<open>Transcode3\<close> and that is not among the sources.
  \<open>decode\<close> stands for the decoder session: the frames decoded from the input,
  after the late packets are dropped, or an error.
\<close>

definition transcode ::
  "('i \<Rightarrow> error + frame list) \<Rightarrow> ('o \<Rightarrow> frame list \<Rightarrow> error + frame list) \<Rightarrow> 'i \<Rightarrow> 'o list
     \<Rightarrow> error + TranscodeResults" where
  "transcode decode encode input outs =
     (case decode input of
        Inl err \<Rightarrow> Inl err
      | Inr fs \<Rightarrow>
         (case encode_outputs encode outs fs of
            Inl err \<Rightarrow> Inl err
          | Inr enc \<Rightarrow> Inr \<lparr>Decoded = media_info fs, Encoded = enc\<rparr>))"

section \<open>Predicates used to state the properties\<close>

text \<open>The strings \<open>strconv.Atoi\<close> can accept: an optional sign and then at least one
  decimal digit.\<close>

definition strip_sign :: "string \<Rightarrow> string" where
  "strip_sign s = (case s of [] \<Rightarrow> [] | c # cs \<Rightarrow> if c = CHR ''+'' \<or> c = CHR ''-'' then cs else s)"

definition decimal :: "string \<Rightarrow> bool" where
  "decimal s = (strip_sign s \<noteq> [] \<and> list_all is_digit (strip_sign s))"

section \<open>Return codes of the media runtime\<close>

lemma profile_params_240p:
  "profile_params ''t.ts'' 0 \<lparr>Resolution = ''426x240'', Bitrate = ''100k'', Framerate = 30\<rparr> =
     Inr \<lparr>fname = ''out0t.ts'', fps = \<lparr>num = 30, den = 1\<rparr>,
          width = 426, height = 240, bitrate = 100000\<rparr>"
  by (simp add: profile_params_def parse_bitrate_def Atoi_def is_digit_def digit_val_def
      oname_def Itoa.simps [of 0] digit_char_def Let_def)

lemma RTMPToHLS_result:
  "fst (RTMPToHLS rt em u m t s wd) =
     Returns (if rt (Call_lpms_rtmp2hls u m t s) = 0 then None
              else em (rt (Call_lpms_rtmp2hls u m t s)))"
  by (simp add: RTMPToHLS_def Let_def)

lemma Transcode_result:
  assumes "build_params input 0 ps (wd\<lparr>cstrings := cstrings wd + 1\<rparr>) = (Inr params, wd1)"
    and "params \<noteq> []"
  shows "fst (Transcode rt em input ps wd) =
     Returns (if rt (Call_lpms_transcode input params) = 0 then None
              else em (rt (Call_lpms_transcode input params)))"
  using assms by (simp add: Transcode_def Let_def)

text \<open>
  Claim C1, as the code has it. \<open>RTMPToHLS\<close> returns \<open>nil\<close> when the runtime
  returns 0 and the entry \<open>ErrorMap[ret]\<close> for every other return code \<open>ret\<close>; so
  does \<open>Transcode\<close> whenever its loop over the profiles has built a non-empty
  parameter array, which is when it calls the runtime. The entry of a code that
  the table does not hold is \<open>nil\<close>: the result is \<open>nil\<close> exactly when the
  return code is 0 or the table has no error for it.
\<close>

theorem C1_return_code_lookup:
  "fst (RTMPToHLS rt em u m t s wd) =
     Returns (if rt (Call_lpms_rtmp2hls u m t s) = 0 then None
              else em (rt (Call_lpms_rtmp2hls u m t s)))
   \<and> (fst (RTMPToHLS rt em u m t s wd) = Returns None \<longleftrightarrow>
        rt (Call_lpms_rtmp2hls u m t s) = 0 \<or> em (rt (Call_lpms_rtmp2hls u m t s)) = None)
   \<and> (build_params input 0 ps (wd\<lparr>cstrings := cstrings wd + 1\<rparr>) = (Inr params, wd1)
          \<and> params \<noteq> [] \<longrightarrow>
        fst (Transcode rt em input ps wd) =
          Returns (if rt (Call_lpms_transcode input params) = 0 then None
                   else em (rt (Call_lpms_transcode input params)))
        \<and> (fst (Transcode rt em input ps wd) = Returns None \<longleftrightarrow>
             rt (Call_lpms_transcode input params) = 0
             \<or> em (rt (Call_lpms_transcode input params)) = None))"
  by (simp add: RTMPToHLS_result Transcode_result)

theorem C1_return_code_lookup_witness:
  "build_params ''t.ts'' 0 [\<lparr>Resolution = ''426x240'', Bitrate = ''100k'', Framerate = 30\<rparr>]
      (\<lparr>calls = [], cstrings = 0\<rparr>\<lparr>cstrings := cstrings \<lparr>calls = [], cstrings = 0\<rparr> + 1\<rparr>) =
     (Inr [\<lparr>fname = ''out0t.ts'', fps = \<lparr>num = 30, den = 1\<rparr>,
            width = 426, height = 240, bitrate = 100000\<rparr>], \<lparr>calls = [], cstrings = 2\<rparr>)
   \<and> fst (Transcode (\<lambda>c. 2) [2 \<mapsto> ErrorNew ''Invalid data found when processing input'']
          ''t.ts'' [\<lparr>Resolution = ''426x240'', Bitrate = ''100k'', Framerate = 30\<rparr>]
          \<lparr>calls = [], cstrings = 0\<rparr>) =
       Returns (Some (ErrorNew ''Invalid data found when processing input''))"
proof -
  have h: "build_params ''t.ts'' 0 [\<lparr>Resolution = ''426x240'', Bitrate = ''100k'', Framerate = 30\<rparr>]
      (\<lparr>calls = [], cstrings = 0\<rparr>\<lparr>cstrings := cstrings \<lparr>calls = [], cstrings = 0\<rparr> + 1\<rparr>) =
     (Inr [\<lparr>fname = ''out0t.ts'', fps = \<lparr>num = 30, den = 1\<rparr>,
            width = 426, height = 240, bitrate = 100000\<rparr>], \<lparr>calls = [], cstrings = 2\<rparr>)"
    by (simp add: profile_params_240p)
  from C1_return_code_lookup [of "\<lambda>c. 2" "[2 \<mapsto> ErrorNew ''Invalid data found when processing input'']"
      "''a''" "''b''" "''c''" "''d''" "\<lparr>calls = [], cstrings = 0\<rparr>" "''t.ts''"
      "[\<lparr>Resolution = ''426x240'', Bitrate = ''100k'', Framerate = 30\<rparr>]"
      "[\<lparr>fname = ''out0t.ts'', fps = \<lparr>num = 30, den = 1\<rparr>,
            width = 426, height = 240, bitrate = 100000\<rparr>]" "\<lparr>calls = [], cstrings = 2\<rparr>"] h
  show ?thesis by simp
qed

text \<open>
  Claim C1 as stated fails: with a table that has no entry for the return code 1,
  \<open>RTMPToHLS\<close> returns \<open>nil\<close> although the runtime returned 1.
\<close>

theorem C1_nil_for_unmapped_code:
  "fst (RTMPToHLS (\<lambda>c. 1) Map.empty ''rtmp://in'' ''out.m3u8'' ''out_%d.ts'' ''1''
          \<lparr>calls = [], cstrings = 0\<rparr>) = Returns None
   \<and> (\<lambda>c. 1 :: int) (Call_lpms_rtmp2hls ''rtmp://in'' ''out.m3u8'' ''out_%d.ts'' ''1'') \<noteq> 0"
  by (simp add: RTMPToHLS_def Let_def)

section \<open>Errors found by \<open>Transcode\<close> before the runtime is called\<close>

lemma profile_params_error_indep:
  "profile_params input i p = Inl e \<Longrightarrow> profile_params input' i' p = Inl e"
  by (auto simp: profile_params_def Let_def split: if_splits sum.splits)

lemma build_params_calls_aux:
  "build_params input i ps wd = (r, wd') \<Longrightarrow> calls wd' = calls wd"
proof (induction ps arbitrary: i wd r wd')
  case Nil
  then show ?case by simp
next
  case (Cons a ps)
  show ?case
  proof (cases "profile_params input i a")
    case (Inl err)
    with Cons.prems show ?thesis by (auto simp: Let_def)
  next
    case (Inr p)
    obtain r1 wd1 where b: "build_params input (i + 1) ps (wd\<lparr>cstrings := cstrings wd + 1\<rparr>) = (r1, wd1)"
      by (cases "build_params input (i + 1) ps (wd\<lparr>cstrings := cstrings wd + 1\<rparr>)")
    from Cons.IH [OF b] have c: "calls wd1 = calls wd" by simp
    from Cons.prems Inr b have "wd' = wd1"
      by (cases r1) (auto simp: Let_def)
    with c show ?thesis by simp
  qed
qed

lemma build_params_calls:
  "calls (snd (build_params input i ps wd)) = calls wd"
  by (cases "build_params input i ps wd") (simp add: build_params_calls_aux)

lemma build_params_first_error:
  assumes "k < length ps"
    and "profile_params input (i + k) (ps ! k) = Inl e"
    and "\<forall>j<k. \<exists>p. profile_params input (i + j) (ps ! j) = Inr p"
  shows "fst (build_params input i ps wd) = Inl e"
  using assms
proof (induction ps arbitrary: i k wd)
  case Nil
  then show ?case by simp
next
  case (Cons a ps)
  show ?case
  proof (cases k)
    case 0
    with Cons.prems show ?thesis by (simp add: Let_def)
  next
    case (Suc k')
    from Cons.prems(3) Suc obtain p where p: "profile_params input i a = Inr p"
      by fastforce
    have "fst (build_params input (i + 1) ps (wd\<lparr>cstrings := cstrings wd + 1\<rparr>)) = Inl e"
    proof (rule Cons.IH [of k'])
      show "k' < length ps" using Cons.prems(1) Suc by simp
      show "profile_params input (i + 1 + k') (ps ! k') = Inl e"
        using Cons.prems(2) Suc by simp
      show "\<forall>j<k'. \<exists>p. profile_params input (i + 1 + j) (ps ! j) = Inr p"
      proof (intro allI impI)
        fix j assume "j < k'"
        then have "Suc j < k" using Suc by simp
        with Cons.prems(3) have "\<exists>p. profile_params input (i + Suc j) ((a # ps) ! Suc j) = Inr p"
          by blast
        then show "\<exists>p. profile_params input (i + 1 + j) (ps ! j) = Inr p" by simp
      qed
    qed
    with p show ?thesis by (auto simp: Let_def split: prod.splits sum.splits)
  qed
qed

lemma build_params_some_error:
  assumes "k < length ps" and "profile_params input (i + k) (ps ! k) = Inl e"
  shows "\<exists>err. fst (build_params input i ps wd) = Inl err"
  using assms
proof (induction ps arbitrary: i k wd)
  case Nil
  then show ?case by simp
next
  case (Cons a ps)
  show ?case
  proof (cases k)
    case 0
    with Cons.prems show ?thesis by (simp add: Let_def)
  next
    case (Suc k')
    have "\<exists>err. fst (build_params input (i + 1) ps (wd\<lparr>cstrings := cstrings wd + 1\<rparr>)) = Inl err"
      by (rule Cons.IH [of k']) (use Cons.prems Suc in simp_all)
    then show ?thesis by (auto simp: Let_def split: prod.splits sum.splits)
  qed
qed

lemma Transcode_error_path:
  assumes "fst (build_params input 0 ps (wd\<lparr>cstrings := cstrings wd + 1\<rparr>)) = Inl err"
  shows "fst (Transcode rt em input ps wd) = Returns (Some err)"
    and "calls (snd (Transcode rt em input ps wd)) = calls wd"
proof -
  obtain r wd1 where b: "build_params input 0 ps (wd\<lparr>cstrings := cstrings wd + 1\<rparr>) = (r, wd1)"
    by (cases "build_params input 0 ps (wd\<lparr>cstrings := cstrings wd + 1\<rparr>)")
  with assms have r: "r = Inl err" by simp
  from b r show "fst (Transcode rt em input ps wd) = Returns (Some err)"
    by (simp add: Transcode_def Let_def)
  from build_params_calls [of input 0 ps "wd\<lparr>cstrings := cstrings wd + 1\<rparr>"] b
  have "calls wd1 = calls wd" by simp
  with b r show "calls (snd (Transcode rt em input ps wd)) = calls wd"
    by (simp add: Transcode_def Let_def)
qed

lemma profile_params_missing_res:
  "length (Split (Resolution p) (CHR ''x'')) < 2 \<Longrightarrow> profile_params input i p = Inl ErrTranscoderRes"
  by (simp add: profile_params_def Let_def)

text \<open>
  Claim C2, as the code has it. If the \<open>Resolution\<close> of some profile splits on
  \<open>x\<close> into fewer than two components, \<open>Transcode\<close> returns an error and
  the runtime is not called (the list of runtime calls is unchanged). The loop
  returns at the first profile that fails, so the error is \<open>ErrTranscoderRes\<close>
  when every earlier profile of the list is well formed.
\<close>

theorem C2_missing_resolution:
  assumes "k < length ps"
    and "length (Split (Resolution (ps ! k)) (CHR ''x'')) < 2"
  shows "(\<exists>err. fst (Transcode rt em input ps wd) = Returns (Some err))
       \<and> calls (snd (Transcode rt em input ps wd)) = calls wd
       \<and> ((\<forall>j<k. \<exists>p. profile_params input j (ps ! j) = Inr p) \<longrightarrow>
            fst (Transcode rt em input ps wd) = Returns (Some ErrTranscoderRes))"
proof -
  let ?wd0 = "wd\<lparr>cstrings := cstrings wd + 1\<rparr>"
  have e: "profile_params input (0 + k) (ps ! k) = Inl ErrTranscoderRes"
    using assms(2) by (simp add: profile_params_missing_res)
  from build_params_some_error [OF assms(1) e, of ?wd0]
  obtain err where err: "fst (build_params input 0 ps ?wd0) = Inl err" by blast
  have 1: "\<exists>err. fst (Transcode rt em input ps wd) = Returns (Some err)"
    using Transcode_error_path(1) [OF err] by blast
  have 2: "calls (snd (Transcode rt em input ps wd)) = calls wd"
    using Transcode_error_path(2) [OF err] .
  have 3: "fst (Transcode rt em input ps wd) = Returns (Some ErrTranscoderRes)"
    if "\<forall>j<k. \<exists>p. profile_params input j (ps ! j) = Inr p"
  proof -
    from that have "\<forall>j<k. \<exists>p. profile_params input (0 + j) (ps ! j) = Inr p" by simp
    from build_params_first_error [OF assms(1) e this, of ?wd0]
    show ?thesis by (rule Transcode_error_path(1))
  qed
  from 1 2 3 show ?thesis by blast
qed

theorem C2_missing_resolution_witness:
  "(1::nat) < length [\<lparr>Resolution = ''426x240'', Bitrate = ''100k'', Framerate = 30\<rparr>,
                      \<lparr>Resolution = ''240'', Bitrate = ''100k'', Framerate = 30\<rparr>]
   \<and> length (Split (Resolution ([\<lparr>Resolution = ''426x240'', Bitrate = ''100k'', Framerate = 30\<rparr>,
                      \<lparr>Resolution = ''240'', Bitrate = ''100k'', Framerate = 30\<rparr>] ! 1)) (CHR ''x'')) < 2
   \<and> fst (Transcode (\<lambda>c. 0) Map.empty ''t.ts''
          [\<lparr>Resolution = ''426x240'', Bitrate = ''100k'', Framerate = 30\<rparr>,
           \<lparr>Resolution = ''240'', Bitrate = ''100k'', Framerate = 30\<rparr>]
          \<lparr>calls = [], cstrings = 0\<rparr>) = Returns (Some ErrTranscoderRes)
   \<and> calls (snd (Transcode (\<lambda>c. 0) Map.empty ''t.ts''
          [\<lparr>Resolution = ''426x240'', Bitrate = ''100k'', Framerate = 30\<rparr>,
           \<lparr>Resolution = ''240'', Bitrate = ''100k'', Framerate = 30\<rparr>]
          \<lparr>calls = [], cstrings = 0\<rparr>)) = []"
  using C2_missing_resolution [of 1
      "[\<lparr>Resolution = ''426x240'', Bitrate = ''100k'', Framerate = 30\<rparr>,
        \<lparr>Resolution = ''240'', Bitrate = ''100k'', Framerate = 30\<rparr>]"
      "\<lambda>c. 0" Map.empty "''t.ts''" "\<lparr>calls = [], cstrings = 0\<rparr>"]
    profile_params_240p
  by simp

text \<open>
  Claim C2 as stated fails: the second profile has no resolution, but the first
  one has a width that is no number, and \<open>Transcode\<close> returns the error of
  \<open>strconv.Atoi\<close> for the first profile, not \<open>ErrTranscoderRes\<close>.
\<close>

theorem C2_earlier_profile_error:
  "length (Split (Resolution ([\<lparr>Resolution = ''ax1'', Bitrate = ''100k'', Framerate = 30\<rparr>,
                      \<lparr>Resolution = [], Bitrate = ''100k'', Framerate = 30\<rparr>] ! 1)) (CHR ''x'')) < 2
   \<and> fst (Transcode (\<lambda>c. 0) Map.empty ''t.ts''
          [\<lparr>Resolution = ''ax1'', Bitrate = ''100k'', Framerate = 30\<rparr>,
           \<lparr>Resolution = [], Bitrate = ''100k'', Framerate = 30\<rparr>]
          \<lparr>calls = [], cstrings = 0\<rparr>) = Returns (Some (NumError ''Atoi'' ''a'' ErrSyntax))
   \<and> NumError ''Atoi'' ''a'' ErrSyntax \<noteq> ErrTranscoderRes"
  by (simp add: Transcode_def profile_params_def Atoi_def is_digit_def Let_def)

lemma Atoi_Inl_NumError:
  "Atoi s = Inl e \<Longrightarrow> \<exists>ne. e = NumError ''Atoi'' s ne"
  by (auto simp: Atoi_def Let_def split: if_splits sum.splits)

lemma profile_params_parse_error:
  assumes "2 \<le> length (Split (Resolution p) (CHR ''x''))"
    and "isl (Atoi (Split (Resolution p) (CHR ''x'') ! 0))
         \<or> isl (Atoi (Split (Resolution p) (CHR ''x'') ! 1))
         \<or> isl (parse_bitrate (Bitrate p))"
  shows "\<exists>s ne. profile_params input i p = Inl (NumError ''Atoi'' s ne)"
proof -
  from assms have "\<exists>e. profile_params input i p = Inl e
      \<and> (e = projl (Atoi (Split (Resolution p) (CHR ''x'') ! 0))
         \<and> isl (Atoi (Split (Resolution p) (CHR ''x'') ! 0))
       \<or> e = projl (Atoi (Split (Resolution p) (CHR ''x'') ! 1))
         \<and> isl (Atoi (Split (Resolution p) (CHR ''x'') ! 1))
       \<or> e = projl (parse_bitrate (Bitrate p)) \<and> isl (parse_bitrate (Bitrate p)))"
    by (auto simp: profile_params_def Let_def split: sum.splits)
  then obtain e t where e: "profile_params input i p = Inl e" and t: "Atoi t = Inl e"
    by (auto simp: parse_bitrate_def isl_def)
  from Atoi_Inl_NumError [OF t] e show ?thesis by blast
qed

text \<open>
  Claim C10, as the code has it. If some profile has two resolution components
  and its width, its height or its bitrate fails to parse, \<open>Transcode\<close>
  returns an error and the runtime is not called. That profile's own error is
  a \<open>NumError\<close> of \<open>strconv.Atoi\<close>, and it is the error returned when every
  earlier profile of the list is well formed.
\<close>

theorem C10_parse_error_before_runtime:
  assumes "k < length ps"
    and "2 \<le> length (Split (Resolution (ps ! k)) (CHR ''x''))"
    and "isl (Atoi (Split (Resolution (ps ! k)) (CHR ''x'') ! 0))
         \<or> isl (Atoi (Split (Resolution (ps ! k)) (CHR ''x'') ! 1))
         \<or> isl (parse_bitrate (Bitrate (ps ! k)))"
  shows "(\<exists>err. fst (Transcode rt em input ps wd) = Returns (Some err))
       \<and> calls (snd (Transcode rt em input ps wd)) = calls wd
       \<and> (\<exists>s ne. profile_params input k (ps ! k) = Inl (NumError ''Atoi'' s ne)
            \<and> ((\<forall>j<k. \<exists>p. profile_params input j (ps ! j) = Inr p) \<longrightarrow>
                 fst (Transcode rt em input ps wd) = Returns (Some (NumError ''Atoi'' s ne))))"
proof -
  let ?wd0 = "wd\<lparr>cstrings := cstrings wd + 1\<rparr>"
  from profile_params_parse_error [OF assms(2,3), of input k]
  obtain s ne where e0: "profile_params input k (ps ! k) = Inl (NumError ''Atoi'' s ne)"
    by blast
  then have e: "profile_params input (0 + k) (ps ! k) = Inl (NumError ''Atoi'' s ne)"
    by simp
  from build_params_some_error [OF assms(1) e, of ?wd0]
  obtain err where err: "fst (build_params input 0 ps ?wd0) = Inl err" by blast
  have 1: "\<exists>err. fst (Transcode rt em input ps wd) = Returns (Some err)"
    using Transcode_error_path(1) [OF err] by blast
  have 2: "calls (snd (Transcode rt em input ps wd)) = calls wd"
    using Transcode_error_path(2) [OF err] .
  have 3: "fst (Transcode rt em input ps wd) = Returns (Some (NumError ''Atoi'' s ne))"
    if "\<forall>j<k. \<exists>p. profile_params input j (ps ! j) = Inr p"
  proof -
    from that have "\<forall>j<k. \<exists>p. profile_params input (0 + j) (ps ! j) = Inr p" by simp
    from build_params_first_error [OF assms(1) e this, of ?wd0]
    show ?thesis by (rule Transcode_error_path(1))
  qed
  from 1 2 3 e0 show ?thesis by blast
qed

theorem C10_parse_error_before_runtime_witness:
  "(1::nat) < length [\<lparr>Resolution = ''426x240'', Bitrate = ''100k'', Framerate = 30\<rparr>,
                      \<lparr>Resolution = ''426x24o'', Bitrate = ''100k'', Framerate = 30\<rparr>]
   \<and> 2 \<le> length (Split ''426x24o'' (CHR ''x''))
   \<and> isl (Atoi (Split ''426x24o'' (CHR ''x'') ! 1))
   \<and> fst (Transcode (\<lambda>c. 0) Map.empty ''t.ts''
          [\<lparr>Resolution = ''426x240'', Bitrate = ''100k'', Framerate = 30\<rparr>,
           \<lparr>Resolution = ''426x24o'', Bitrate = ''100k'', Framerate = 30\<rparr>]
          \<lparr>calls = [], cstrings = 0\<rparr>) = Returns (Some (NumError ''Atoi'' ''24o'' ErrSyntax))
   \<and> calls (snd (Transcode (\<lambda>c. 0) Map.empty ''t.ts''
          [\<lparr>Resolution = ''426x240'', Bitrate = ''100k'', Framerate = 30\<rparr>,
           \<lparr>Resolution = ''426x24o'', Bitrate = ''100k'', Framerate = 30\<rparr>]
          \<lparr>calls = [], cstrings = 0\<rparr>)) = []"
proof -
  have a: "Atoi ''24o'' = Inl (NumError ''Atoi'' ''24o'' ErrSyntax)"
    by (simp add: Atoi_def is_digit_def digit_val_def Let_def)
  have b: "Atoi ''426'' = Inr 426"
    by (simp add: Atoi_def is_digit_def digit_val_def Let_def)
  have p: "profile_params ''t.ts'' 1 \<lparr>Resolution = ''426x24o'', Bitrate = ''100k'', Framerate = 30\<rparr>
          = Inl (NumError ''Atoi'' ''24o'' ErrSyntax)"
    by (simp add: profile_params_def a b Let_def)
  show ?thesis
    using C10_parse_error_before_runtime [of 1
      "[\<lparr>Resolution = ''426x240'', Bitrate = ''100k'', Framerate = 30\<rparr>,
        \<lparr>Resolution = ''426x24o'', Bitrate = ''100k'', Framerate = 30\<rparr>]"
      "\<lambda>c. 0" Map.empty "''t.ts''" "\<lparr>calls = [], cstrings = 0\<rparr>"]
      profile_params_240p a p
    by simp
qed

text \<open>
  Claim C10 as stated fails: the second profile has a width that is no number,
  but the first one has no resolution, and \<open>Transcode\<close> returns
  \<open>ErrTranscoderRes\<close>, which is no parse error.
\<close>

theorem C10_earlier_profile_error:
  "2 \<le> length (Split (Resolution ([\<lparr>Resolution = [], Bitrate = ''100k'', Framerate = 30\<rparr>,
                      \<lparr>Resolution = ''ax1'', Bitrate = ''100k'', Framerate = 30\<rparr>] ! 1)) (CHR ''x''))
   \<and> Atoi (Split (Resolution ([\<lparr>Resolution = [], Bitrate = ''100k'', Framerate = 30\<rparr>,
                      \<lparr>Resolution = ''ax1'', Bitrate = ''100k'', Framerate = 30\<rparr>] ! 1)) (CHR ''x'') ! 0)
       = Inl (NumError ''Atoi'' ''a'' ErrSyntax)
   \<and> fst (Transcode (\<lambda>c. 0) Map.empty ''t.ts''
          [\<lparr>Resolution = [], Bitrate = ''100k'', Framerate = 30\<rparr>,
           \<lparr>Resolution = ''ax1'', Bitrate = ''100k'', Framerate = 30\<rparr>]
          \<lparr>calls = [], cstrings = 0\<rparr>) = Returns (Some ErrTranscoderRes)"
  by (simp add: Transcode_def profile_params_def Atoi_def is_digit_def Let_def)

section \<open>The bitrate of a profile\<close>

lemma Atoi_fast_loop_digits:
  "Atoi_fast_loop n s = Inr m \<Longrightarrow> list_all is_digit s"
  by (induction s arbitrary: n) (auto split: if_splits)

lemma ParseUint_loop_digits:
  "ParseUint_loop n s = Inr m \<Longrightarrow> list_all is_digit s"
  by (induction s arbitrary: n) (auto simp: Let_def split: if_splits)

lemma ParseInt_decimal:
  assumes "ParseInt s = Inr v"
  shows "decimal s"
proof (cases s)
  case Nil
  with assms show ?thesis by (simp add: ParseInt_def)
next
  case (Cons c cs)
  let ?body = "if c = CHR ''+'' \<or> c = CHR ''-'' then cs else s"
  from assms Cons obtain un where un: "ParseUint ?body = Inr un"
    by (auto simp: ParseInt_def Let_def split: sum.splits num_err.splits if_splits)
  then have "?body \<noteq> []" and "list_all is_digit ?body"
    by (auto simp: ParseUint_def dest: ParseUint_loop_digits split: if_splits)
  with Cons show ?thesis by (auto simp: decimal_def strip_sign_def split: if_splits)
qed

lemma Atoi_Inr_decimal:
  assumes "Atoi s = Inr v"
  shows "decimal s"
proof (cases "0 < length s \<and> length s < 19")
  case False
  with assms obtain i where "ParseInt s = Inr i"
    by (auto simp: Atoi_def split: sum.splits)
  then show ?thesis by (rule ParseInt_decimal)
next
  case True
  then obtain c cs where s: "s = c # cs" by (cases s) auto
  let ?signed = "c = CHR ''-'' \<or> c = CHR ''+''"
  let ?body = "if ?signed then cs else s"
  from assms True s have ne: "\<not> (?signed \<and> length ?body < 1)"
    by (auto simp: Atoi_def Let_def split: if_splits)
  from assms True s obtain n where "Atoi_fast_loop 0 ?body = Inr n"
    by (auto simp: Atoi_def Let_def split: if_splits sum.splits)
  then have "list_all is_digit ?body" by (rule Atoi_fast_loop_digits)
  with ne s show ?thesis by (auto simp: decimal_def strip_sign_def split: if_splits)
qed

lemma Atoi_not_decimal:
  assumes "\<not> decimal s"
  shows "\<exists>ne. Atoi s = Inl (NumError ''Atoi'' s ne)"
proof (cases "Atoi s")
  case (Inl e)
  with Atoi_Inl_NumError [OF Inl] show ?thesis by blast
next
  case (Inr v)
  with assms Atoi_Inr_decimal show ?thesis by blast
qed

lemma Replace_keeps_second:
  "2 \<le> length (filter (\<lambda>c. c = old) s) \<Longrightarrow> old \<in> set (Replace s old new)"
proof (induction s)
  case Nil
  then show ?case by simp
next
  case (Cons a s)
  show ?case
  proof (cases "a = old")
    case True
    with Cons.prems have "1 \<le> length (filter (\<lambda>c. c = old) s)" by simp
    then have "filter (\<lambda>c. c = old) s \<noteq> []" by auto
    then have "old \<in> set s" by (auto simp: filter_empty_conv)
    with True show ?thesis by simp
  next
    case False
    with Cons show ?thesis by simp
  qed
qed

lemma not_decimal_if_letter:
  assumes "c \<in> set s" and "\<not> is_digit c" and "c \<noteq> CHR ''+''" and "c \<noteq> CHR ''-''"
  shows "\<not> decimal s"
proof -
  from assms have "c \<in> set (strip_sign s)"
    by (cases s) (auto simp: strip_sign_def)
  with assms(2) show ?thesis by (auto simp: decimal_def list_all_iff)
qed

lemma second_k_not_decimal:
  assumes "2 \<le> length (filter (\<lambda>c. c = CHR ''k'') b)"
  shows "\<not> decimal (Replace b (CHR ''k'') ''000'')"
  by (rule not_decimal_if_letter [OF Replace_keeps_second [OF assms]])
     (simp_all add: is_digit_def)

lemma profile_params_bitrate_error:
  assumes "2 \<le> length (Split (Resolution p) (CHR ''x''))"
    and "Atoi (Split (Resolution p) (CHR ''x'') ! 0) = Inr w"
    and "Atoi (Split (Resolution p) (CHR ''x'') ! 1) = Inr h"
    and "parse_bitrate (Bitrate p) = Inl e"
  shows "profile_params input i p = Inl e"
  using assms by (simp add: profile_params_def Let_def)

lemma profile_params_bitrate_ok:
  assumes "profile_params input i p = Inr q"
  shows "\<exists>br. parse_bitrate (Bitrate p) = Inr br \<and> bitrate q = word_of_int br"
  using assms by (auto simp: profile_params_def Let_def split: if_splits sum.splits)

lemma parse_bitrate_100k: "parse_bitrate ''100k'' = Inr 100000"
  by (simp add: parse_bitrate_def Atoi_def is_digit_def digit_val_def Let_def)

lemma parse_bitrate_1k5: "parse_bitrate ''1k5'' = Inr 10005"
  by (simp add: parse_bitrate_def Atoi_def is_digit_def digit_val_def Let_def)

text \<open>
  Claim C9, as the code has it. The bitrate is \<open>strconv.Atoi\<close> of the
  \<open>Bitrate\<close> string with its first \<open>k\<close> replaced by \<open>000\<close>:
  \<open>100k\<close> gives 100000 and \<open>1k5\<close> gives 10005, and the value reaches
  the runtime truncated to a \<open>C.int\<close>. A string with a second \<open>k\<close> is,
  after the replacement, not an optional sign followed by decimal digits, and
  every such string gives the \<open>NumError\<close> of \<open>strconv.Atoi\<close>.
  \<open>Transcode\<close> returns that error when the resolution of the profile parses
  and every earlier profile of the list is well formed.
\<close>

theorem C9_bitrate_parse:
  "parse_bitrate ''100k'' = Inr 100000
   \<and> parse_bitrate ''1k5'' = Inr 10005
   \<and> parse_bitrate b = Atoi (Replace b (CHR ''k'') ''000'')
   \<and> (profile_params input i p = Inr q \<longrightarrow>
        (\<exists>br. parse_bitrate (Bitrate p) = Inr br \<and> bitrate q = word_of_int br))
   \<and> (2 \<le> length (filter (\<lambda>c. c = CHR ''k'') b) \<longrightarrow>
        \<not> decimal (Replace b (CHR ''k'') ''000''))
   \<and> (\<not> decimal (Replace b (CHR ''k'') ''000'') \<longrightarrow>
        (\<exists>ne. parse_bitrate b = Inl (NumError ''Atoi'' (Replace b (CHR ''k'') ''000'') ne)))
   \<and> (k < length ps
        \<and> (\<forall>j<k. \<exists>p. profile_params input j (ps ! j) = Inr p)
        \<and> 2 \<le> length (Split (Resolution (ps ! k)) (CHR ''x''))
        \<and> Atoi (Split (Resolution (ps ! k)) (CHR ''x'') ! 0) = Inr w
        \<and> Atoi (Split (Resolution (ps ! k)) (CHR ''x'') ! 1) = Inr h
        \<and> parse_bitrate (Bitrate (ps ! k)) = Inl e \<longrightarrow>
        fst (Transcode rt em input ps wd) = Returns (Some e))"
proof -
  have 7: "fst (Transcode rt em input ps wd) = Returns (Some e)"
    if a: "k < length ps"
      and b: "\<forall>j<k. \<exists>p. profile_params input j (ps ! j) = Inr p"
      and c: "2 \<le> length (Split (Resolution (ps ! k)) (CHR ''x''))"
      and d: "Atoi (Split (Resolution (ps ! k)) (CHR ''x'') ! 0) = Inr w"
      and e: "Atoi (Split (Resolution (ps ! k)) (CHR ''x'') ! 1) = Inr h"
      and f: "parse_bitrate (Bitrate (ps ! k)) = Inl e"
  proof -
    have pe: "profile_params input (0 + k) (ps ! k) = Inl e"
      using profile_params_bitrate_error [OF c d e f] by simp
    from b have "\<forall>j<k. \<exists>p. profile_params input (0 + j) (ps ! j) = Inr p" by simp
    from build_params_first_error [OF a pe this]
    show ?thesis by (rule Transcode_error_path(1))
  qed
  have 6: "\<exists>ne. parse_bitrate b = Inl (NumError ''Atoi'' (Replace b (CHR ''k'') ''000'') ne)"
    if "\<not> decimal (Replace b (CHR ''k'') ''000'')"
    using Atoi_not_decimal [OF that] by (simp add: parse_bitrate_def)
  from 6 7 show ?thesis
    using parse_bitrate_100k parse_bitrate_1k5 profile_params_bitrate_ok [of input i p q]
      second_k_not_decimal [of b]
    by (simp add: parse_bitrate_def)
qed

theorem C9_bitrate_parse_witness:
  "profile_params ''t.ts'' 0 \<lparr>Resolution = ''426x240'', Bitrate = ''100k'', Framerate = 30\<rparr> =
     Inr \<lparr>fname = ''out0t.ts'', fps = \<lparr>num = 30, den = 1\<rparr>,
          width = 426, height = 240, bitrate = 100000\<rparr>
   \<and> 2 \<le> length (filter (\<lambda>c. c = CHR ''k'') ''1kk'')
   \<and> \<not> decimal (Replace ''1kk'' (CHR ''k'') ''000'')
   \<and> parse_bitrate ''1kk'' = Inl (NumError ''Atoi'' ''1000k'' ErrSyntax)
   \<and> (0::nat) < length [\<lparr>Resolution = ''426x240'', Bitrate = ''1kk'', Framerate = 30\<rparr>]
   \<and> 2 \<le> length (Split ''426x240'' (CHR ''x''))
   \<and> Atoi (Split ''426x240'' (CHR ''x'') ! 0) = Inr 426
   \<and> Atoi (Split ''426x240'' (CHR ''x'') ! 1) = Inr 240
   \<and> fst (Transcode (\<lambda>c. 0) Map.empty ''t.ts''
          [\<lparr>Resolution = ''426x240'', Bitrate = ''1kk'', Framerate = 30\<rparr>]
          \<lparr>calls = [], cstrings = 0\<rparr>) = Returns (Some (NumError ''Atoi'' ''1000k'' ErrSyntax))"
proof -
  have a: "Atoi ''426'' = Inr 426" "Atoi ''240'' = Inr 240"
    by (simp_all add: Atoi_def is_digit_def digit_val_def Let_def)
  have b: "parse_bitrate ''1kk'' = Inl (NumError ''Atoi'' ''1000k'' ErrSyntax)"
    by (simp add: parse_bitrate_def Atoi_def is_digit_def digit_val_def Let_def)
  show ?thesis
    using C9_bitrate_parse [where b = "''1kk''" and input = "''t.ts''" and i = 0
        and p = "\<lparr>Resolution = ''426x240'', Bitrate = ''100k'', Framerate = 30\<rparr>"
        and q = "\<lparr>fname = ''out0t.ts'', fps = \<lparr>num = 30, den = 1\<rparr>,
                  width = 426, height = 240, bitrate = 100000\<rparr>"
        and k = 0
        and ps = "[\<lparr>Resolution = ''426x240'', Bitrate = ''1kk'', Framerate = 30\<rparr>]"
        and w = 426 and h = 240 and e = "NumError ''Atoi'' ''1000k'' ErrSyntax"
        and rt = "\<lambda>c. 0" and em = Map.empty and wd = "\<lparr>calls = [], cstrings = 0\<rparr>"]
      profile_params_240p a b
    by simp
qed

text \<open>
  Claim C9 as stated fails: a leading sign is a byte that is no digit, and
  \<open>strconv.Atoi\<close> accepts it. The bitrate \<open>+100k\<close> parses to 100000 and
  \<open>Transcode\<close> returns \<open>nil\<close>.
\<close>

theorem C9_signed_bitrate_parses:
  "CHR ''+'' \<in> set (Replace ''+100k'' (CHR ''k'') ''000'')
   \<and> \<not> is_digit (CHR ''+'')
   \<and> parse_bitrate ''+100k'' = Inr 100000
   \<and> fst (Transcode (\<lambda>c. 0) Map.empty ''t.ts''
          [\<lparr>Resolution = ''426x240'', Bitrate = ''+100k'', Framerate = 30\<rparr>]
          \<lparr>calls = [], cstrings = 0\<rparr>) = Returns None"
  by (simp add: Transcode_def profile_params_def parse_bitrate_def Atoi_def is_digit_def
      digit_val_def Let_def)

section \<open>The name of the output\<close>

text \<open>
  Claim C3 at the input path \<open>dir/test.mp4\<close>: the name handed to the runtime
  for the profile at index 0 is \<open>out0dir/test.mp4\<close>, the prefix joined to the
  whole path, where the base file name would give \<open>out0test.mp4\<close>.
\<close>

theorem C3_output_name_keeps_directory:
  "map fname (projr (fst (build_params ''dir/test.mp4'' 0
        [\<lparr>Resolution = ''426x240'', Bitrate = ''100k'', Framerate = 30\<rparr>]
        \<lparr>calls = [], cstrings = 1\<rparr>))) = [''out0dir/test.mp4'']
   \<and> ''out'' @ Itoa 0 @ Base ''dir/test.mp4'' = ''out0test.mp4''
   \<and> oname 0 ''dir/test.mp4'' \<noteq> ''out'' @ Itoa 0 @ Base ''dir/test.mp4''"
  by (simp add: profile_params_def parse_bitrate_def Atoi_def is_digit_def digit_val_def
      oname_def Itoa.simps [of 0] digit_char_def Base_def Let_def)

section \<open>Aspect ratio\<close>











section \<open>Late packets\<close>

lemma drop_late_non_video:
  "filter (\<lambda>p. streams (stream_index p) \<noteq> Video) (drop_late streams prev ps) =
   filter (\<lambda>p. streams (stream_index p) \<noteq> Video) ps"
  by (induction ps arbitrary: prev) (auto simp: is_late_def)

lemma on_stream_Cons:
  "on_stream s (p # ps) = (if stream_index p = s then p # on_stream s ps else on_stream s ps)"
  by (simp add: on_stream_def)

lemma drop_late_on_stream:
  "prev s = prev' s \<Longrightarrow>
   on_stream s (drop_late streams prev ps) = drop_late streams prev' (on_stream s ps)"
proof (induction ps arbitrary: prev prev')
  case Nil
  then show ?case by (simp add: on_stream_def)
next
  case (Cons p ps)
  let ?pu = "prev(stream_index p := Some (dts p))"
  let ?pu' = "prev'(stream_index p := Some (dts p))"
  have ih1: "on_stream s (drop_late streams prev ps) = drop_late streams prev' (on_stream s ps)"
    using Cons.prems by (rule Cons.IH [of prev prev'])
  show ?case
  proof (cases "stream_index p = s")
    case True
    with Cons.prems have l: "is_late streams prev p = is_late streams prev' p"
      by (simp add: is_late_def)
    have "?pu s = ?pu' s" using True by simp
    then have ih2: "on_stream s (drop_late streams ?pu ps) = drop_late streams ?pu' (on_stream s ps)"
      by (rule Cons.IH [of ?pu ?pu'])
    show ?thesis
    proof (cases "is_late streams prev' p")
      case late: True
      with l True ih1 show ?thesis by (simp add: on_stream_Cons)
    next
      case notlate: False
      with l True ih2 show ?thesis
        by (simp add: on_stream_Cons)
    qed
  next
    case False
    then have "?pu s = prev' s" using Cons.prems by simp
    then have ih2: "on_stream s (drop_late streams ?pu ps) = drop_late streams prev' (on_stream s ps)"
      by (rule Cons.IH [of ?pu prev'])
    show ?thesis
    proof (cases "is_late streams prev p")
      case late: True
      with False ih1 show ?thesis by (simp add: on_stream_Cons)
    next
      case notlate: False
      with False ih2 show ?thesis
        by (simp add: on_stream_Cons)
    qed
  qed
qed

lemma drop_late_sorted_aux:
  assumes "streams s = Video"
  shows "sorted (map dts (on_stream s (drop_late streams prev ps)))
       \<and> (\<forall>d. prev s = Some d \<longrightarrow>
             (\<forall>x \<in> set (map dts (on_stream s (drop_late streams prev ps))). d \<le> x))"
proof (induction ps arbitrary: prev)
  case Nil
  show ?case by (simp add: on_stream_def)
next
  case (Cons p ps)
  show ?case
  proof (cases "is_late streams prev p")
    case True
    with Cons.IH [of prev] show ?thesis by simp
  next
    case False
    let ?prev' = "prev(stream_index p := Some (dts p))"
    define out where "out = on_stream s (drop_late streams ?prev' ps)"
    from Cons.IH [of ?prev'] have so: "sorted (map dts out)"
      and bd: "\<forall>d. ?prev' s = Some d \<longrightarrow> (\<forall>x \<in> set (map dts out). d \<le> x)"
      unfolding out_def by blast+
    have step: "drop_late streams prev (p # ps) = p # drop_late streams ?prev' ps"
      using False by simp
    show ?thesis
    proof (cases "stream_index p = s")
      case True
      then have "?prev' s = Some (dts p)" by simp
      with bd have b: "\<forall>x \<in> set (map dts out). dts p \<le> x" by blast
      from False True assms have d: "\<forall>d. prev s = Some d \<longrightarrow> d \<le> dts p"
        by (auto simp: is_late_def)
      have eq: "on_stream s (drop_late streams prev (p # ps)) = p # out"
        unfolding step using True by (simp add: on_stream_def out_def)
      have "sorted (map dts (p # out))" using so b by simp
      moreover have "\<forall>d. prev s = Some d \<longrightarrow> (\<forall>x \<in> set (map dts (p # out)). d \<le> x)"
      proof (intro allI impI ballI)
        fix d' x assume p: "prev s = Some d'" and x: "x \<in> set (map dts (p # out))"
        from d p have "d' \<le> dts p" by blast
        moreover from x b have "dts p \<le> x" by auto
        ultimately show "d' \<le> x" by simp
      qed
      ultimately show ?thesis unfolding eq by (rule conjI)
    next
      case neq: False
      then have e: "?prev' s = prev s" by simp
      have eq: "on_stream s (drop_late streams prev (p # ps)) = out"
        unfolding step using neq by (simp add: on_stream_def out_def)
      from bd e have "\<forall>d. prev s = Some d \<longrightarrow> (\<forall>x \<in> set (map dts out). d \<le> x)"
        by simp
      with so show ?thesis unfolding eq by (rule conjI)
    qed
  qed
qed

lemma drop_late_keeps_sorted_prefix:
  assumes "\<forall>q \<in> set xs. stream_index q = s"
    and "sorted (map dts xs)"
    and "xs \<noteq> []"
    and "\<forall>d. prev s = Some d \<longrightarrow> (\<forall>q \<in> set xs. d \<le> dts q)"
  shows "drop_late streams prev (xs @ ys) =
         xs @ drop_late streams (prev(s := Some (dts (last xs)))) ys"
  using assms
proof (induction xs arbitrary: prev)
  case Nil
  then show ?case by simp
next
  case (Cons q xs)
  from Cons.prems(1) have qs: "stream_index q = s" by simp
  from Cons.prems(4) qs have nl: "\<not> is_late streams prev q"
    by (auto simp: is_late_def split: option.splits)
  let ?prev' = "prev(s := Some (dts q))"
  have step: "drop_late streams prev ((q # xs) @ ys) = q # drop_late streams ?prev' (xs @ ys)"
    using nl qs by simp
  show ?case
  proof (cases "xs = []")
    case True
    show ?thesis using nl qs True by (simp add: fun_upd_def)
  next
    case False
    have "drop_late streams ?prev' (xs @ ys) =
          xs @ drop_late streams (?prev'(s := Some (dts (last xs)))) ys"
    proof (rule Cons.IH)
      show "\<forall>q \<in> set xs. stream_index q = s" using Cons.prems(1) by simp
      show "sorted (map dts xs)" using Cons.prems(2) by simp
      show "xs \<noteq> []" by (rule False)
      show "\<forall>d. ?prev' s = Some d \<longrightarrow> (\<forall>q \<in> set xs. d \<le> dts q)"
        using Cons.prems(2) by simp
    qed
    moreover have "?prev'(s := Some (dts (last xs))) = prev(s := Some (dts (last (q # xs))))"
      using False by simp
    ultimately show ?thesis using nl qs by (simp add: fun_upd_def)
  qed
qed

lemma drop_late_example_single:
  assumes s: "streams s = Video"
    and on: "\<forall>q \<in> set qs. stream_index q = s"
    and d: "map dts qs = pre @ [18867, 18833, 18933]"
    and so: "sorted (pre @ [18867])"
  shows "map dts (drop_late streams (\<lambda>i. None) qs) = pre @ [18867, 18933]"
proof -
  from d obtain xs ys where q: "qs = xs @ ys" and xs: "map dts xs = pre"
    and ys: "map dts ys = [18867, 18833, 18933]"
    by (auto simp: map_eq_append_conv)
  from ys obtain a b c where abc: "ys = [a, b, c]" and da: "dts a = 18867"
    and db: "dts b = 18833" and dc: "dts c = 18933"
    by (auto simp: map_eq_Cons_conv)
  from on q abc have i: "stream_index a = s" "stream_index b = s" "stream_index c = s"
    by simp_all
  define st where "st = (\<lambda>i. None :: int option)(s := Some (dts (last (xs @ [a]))))"
  have pre: "drop_late streams (\<lambda>i. None) ((xs @ [a]) @ [b, c]) =
        (xs @ [a]) @ drop_late streams st [b, c]"
    unfolding st_def
  proof (rule drop_late_keeps_sorted_prefix)
    show "\<forall>q \<in> set (xs @ [a]). stream_index q = s" using on q abc by simp
    show "sorted (map dts (xs @ [a]))" using so xs da by simp
    show "xs @ [a] \<noteq> []" by simp
    show "\<forall>d. (\<lambda>i. None) s = Some d \<longrightarrow> (\<forall>q \<in> set (xs @ [a]). d \<le> dts q)" by simp
  qed
  have sts: "st s = Some 18867" by (simp add: st_def da)
  have lb: "is_late streams st b" using s i sts db by (simp add: is_late_def)
  have lc: "\<not> is_late streams st c" using s i sts dc by (simp add: is_late_def)
  have "drop_late streams st [b, c] = [c]" using lb lc by simp
  with pre have "drop_late streams (\<lambda>i. None) qs = xs @ [a, c]"
    using q abc by simp
  with xs da dc show ?thesis by simp
qed

lemma on_stream_all:
  "\<forall>q \<in> set (on_stream s ps). stream_index q = s"
  by (simp add: on_stream_def)

lemma is_late_iff:
  "is_late streams prev p \<longleftrightarrow>
     streams (stream_index p) = Video \<and> (\<exists>d. prev (stream_index p) = Some d \<and> dts p < d)"
  by (auto simp: is_late_def split: option.splits)

lemma drop_late_example:
  assumes "streams s = Video"
    and "map dts (on_stream s ps) = pre @ [18867, 18833, 18933]"
    and "sorted (pre @ [18867])"
  shows "map dts (on_stream s (drop_late streams (\<lambda>i. None) ps)) = pre @ [18867, 18933]"
    and "length (on_stream s (drop_late streams (\<lambda>i. None) ps)) + 1 = length (on_stream s ps)"
proof -
  have p: "on_stream s (drop_late streams (\<lambda>i. None) ps) =
           drop_late streams (\<lambda>i. None) (on_stream s ps)"
    by (rule drop_late_on_stream [of "\<lambda>i. None" s "\<lambda>i. None"]) simp
  show m: "map dts (on_stream s (drop_late streams (\<lambda>i. None) ps)) = pre @ [18867, 18933]"
    unfolding p
    by (rule drop_late_example_single [where streams = streams and s = s
          and qs = "on_stream s ps" and pre = pre, OF assms(1) on_stream_all assms(2) assms(3)])
  have "length (map dts (on_stream s (drop_late streams (\<lambda>i. None) ps))) = length pre + 2"
    unfolding m by simp
  moreover have "length (map dts (on_stream s ps)) = length pre + 3"
    unfolding assms(2) by simp
  ultimately show "length (on_stream s (drop_late streams (\<lambda>i. None) ps)) + 1
      = length (on_stream s ps)"
    by simp
qed

text \<open>
  Claim C5, amended. A packet is late when it belongs to a video stream and its
  DTS is less than the DTS remembered for its stream. A late packet is not
  passed on and the remembered DTS stays as it was; a packet of a stream that is
  no video stream is always passed on, so all of them come out in their order.
  On a video stream the DTS of the packets passed on never go down. If the DTS
  of a video stream are in order up to 18867 and then end 18867, 18833, 18933,
  the stream comes out with the DTS ending 18867, 18933 and exactly one packet
  fewer than it had.
\<close>

theorem C5_drop_late_packets:
  assumes "streams s = Video"
  shows "sorted (map dts (on_stream s (drop_late streams (\<lambda>i. None) ps)))
       \<and> (is_late streams prev p \<longleftrightarrow>
            streams (stream_index p) = Video
            \<and> (\<exists>d. prev (stream_index p) = Some d \<and> dts p < d))
       \<and> (is_late streams prev p \<longrightarrow>
            drop_late streams prev (p # qs) = drop_late streams prev qs
            \<and> dts_after streams prev (p # qs) = dts_after streams prev qs)
       \<and> (streams (stream_index p') \<noteq> Video \<longrightarrow>
            drop_late streams prev (p' # qs) =
              p' # drop_late streams (prev(stream_index p' := Some (dts p'))) qs)
       \<and> filter (\<lambda>q. streams (stream_index q) \<noteq> Video) (drop_late streams prev ps) =
           filter (\<lambda>q. streams (stream_index q) \<noteq> Video) ps
       \<and> (map dts (on_stream s ps) = pre @ [18867, 18833, 18933] \<and> sorted (pre @ [18867]) \<longrightarrow>
            map dts (on_stream s (drop_late streams (\<lambda>i. None) ps)) = pre @ [18867, 18933]
            \<and> length (on_stream s (drop_late streams (\<lambda>i. None) ps)) + 1
                = length (on_stream s ps))"
proof -
  have 1: "sorted (map dts (on_stream s (drop_late streams (\<lambda>i. None) ps)))"
    using drop_late_sorted_aux [where streams = streams and s = s
        and prev = "\<lambda>i. None" and ps = ps, OF assms] by blast
  have 3: "drop_late streams prev (p # qs) = drop_late streams prev qs
        \<and> dts_after streams prev (p # qs) = dts_after streams prev qs"
    if "is_late streams prev p"
    using that by simp
  have 4: "drop_late streams prev (p' # qs) =
        p' # drop_late streams (prev(stream_index p' := Some (dts p'))) qs"
    if "streams (stream_index p') \<noteq> Video"
    using that by (simp add: is_late_def)
  have 6: "map dts (on_stream s (drop_late streams (\<lambda>i. None) ps)) = pre @ [18867, 18933]
        \<and> length (on_stream s (drop_late streams (\<lambda>i. None) ps)) + 1 = length (on_stream s ps)"
    if "map dts (on_stream s ps) = pre @ [18867, 18833, 18933] \<and> sorted (pre @ [18867])"
    using drop_late_example [where streams = streams and s = s and ps = ps and pre = pre,
        OF assms] that by blast
  from 1 is_late_iff [of streams prev p] 3 4 drop_late_non_video [of streams prev ps] 6
  show ?thesis by blast
qed

theorem C5_drop_late_packets_witness:
  "(\<lambda>i. if i = 0 then Video else Audio) (0::nat) = Video
   \<and> is_late (\<lambda>i. if i = 0 then Video else Audio) [0 \<mapsto> 18867]
        \<lparr>stream_index = 0, dts = 18833\<rparr>
   \<and> (\<lambda>i. if i = 0 then Video else Audio) (stream_index \<lparr>stream_index = 1, dts = 18000\<rparr>) \<noteq> Video
   \<and> map dts (on_stream 0
        [\<lparr>stream_index = 0, dts = 18800\<rparr>, \<lparr>stream_index = 1, dts = 18850\<rparr>,
         \<lparr>stream_index = 0, dts = 18867\<rparr>, \<lparr>stream_index = 0, dts = 18833\<rparr>,
         \<lparr>stream_index = 1, dts = 18000\<rparr>, \<lparr>stream_index = 0, dts = 18933\<rparr>])
       = [18800] @ [18867, 18833, 18933]
   \<and> sorted ([18800] @ [18867 :: int])
   \<and> map dts (on_stream 0 (drop_late (\<lambda>i. if i = 0 then Video else Audio) (\<lambda>i. None)
        [\<lparr>stream_index = 0, dts = 18800\<rparr>, \<lparr>stream_index = 1, dts = 18850\<rparr>,
         \<lparr>stream_index = 0, dts = 18867\<rparr>, \<lparr>stream_index = 0, dts = 18833\<rparr>,
         \<lparr>stream_index = 1, dts = 18000\<rparr>, \<lparr>stream_index = 0, dts = 18933\<rparr>]))
       = [18800, 18867, 18933]
   \<and> drop_late (\<lambda>i. if i = 0 then Video else Audio) [0 \<mapsto> 18867]
        [\<lparr>stream_index = 0, dts = 18833\<rparr>, \<lparr>stream_index = 0, dts = 18933\<rparr>]
       = drop_late (\<lambda>i. if i = 0 then Video else Audio) [0 \<mapsto> 18867]
        [\<lparr>stream_index = 0, dts = 18933\<rparr>]"
  using C5_drop_late_packets [where streams = "\<lambda>i. if i = 0 then Video else Audio" and s = 0
      and ps = "[\<lparr>stream_index = 0, dts = 18800\<rparr>, \<lparr>stream_index = 1, dts = 18850\<rparr>,
         \<lparr>stream_index = 0, dts = 18867\<rparr>, \<lparr>stream_index = 0, dts = 18833\<rparr>,
         \<lparr>stream_index = 1, dts = 18000\<rparr>, \<lparr>stream_index = 0, dts = 18933\<rparr>]"
      and prev = "[0 \<mapsto> 18867]" and p = "\<lparr>stream_index = 0, dts = 18833\<rparr>"
      and p' = "\<lparr>stream_index = 1, dts = 18000\<rparr>"
      and qs = "[\<lparr>stream_index = 0, dts = 18933\<rparr>]" and pre = "[18800]"]
  by (simp add: on_stream_def is_late_def)

text \<open>
  Claim C5 as stated fails: a video stream whose DTS are 20000, 18867, 18833,
  18933 ends as the claim says, but every packet after the first is late, and
  the output has three packets fewer than the input, not one.
\<close>

theorem C5_late_packets_before_the_end:
  "map dts
     [\<lparr>stream_index = 0, dts = 20000\<rparr>, \<lparr>stream_index = 0, dts = 18867\<rparr>,
      \<lparr>stream_index = 0, dts = 18833\<rparr>, \<lparr>stream_index = 0, dts = 18933\<rparr>]
     = [20000, 18867, 18833, 18933]
   \<and> drop_late (\<lambda>i. Video) (\<lambda>i. None)
     [\<lparr>stream_index = 0, dts = 20000\<rparr>, \<lparr>stream_index = 0, dts = 18867\<rparr>,
      \<lparr>stream_index = 0, dts = 18833\<rparr>, \<lparr>stream_index = 0, dts = 18933\<rparr>]
     = [\<lparr>stream_index = 0, dts = 20000\<rparr>]
   \<and> length (drop_late (\<lambda>i. Video) (\<lambda>i. None)
     [\<lparr>stream_index = 0, dts = 20000\<rparr>, \<lparr>stream_index = 0, dts = 18867\<rparr>,
      \<lparr>stream_index = 0, dts = 18833\<rparr>, \<lparr>stream_index = 0, dts = 18933\<rparr>]) + 1
     \<noteq> length
     [\<lparr>stream_index = 0, dts = 20000\<rparr>, \<lparr>stream_index = 0, dts = 18867\<rparr>,
      \<lparr>stream_index = 0, dts = 18833\<rparr>, \<lparr>stream_index = 0, dts = 18933\<rparr>]"
  by (simp add: is_late_def)

section \<open>Stream order of the segmenter\<close>



lemma count_list_one_unique:
  "count_list xs t = 1 \<Longrightarrow> i < length xs \<Longrightarrow> xs ! i = t \<Longrightarrow> find_stream t xs = Some i"
proof (induction xs arbitrary: i)
  case Nil
  then show ?case by simp
next
  case (Cons x xs)
  show ?case
  proof (cases "x = t")
    case True
    with Cons.prems(1) have z: "count_list xs t = 0" by simp
    have "i = 0"
    proof (rule ccontr)
      assume "i \<noteq> 0"
      then obtain j where j: "i = Suc j" by (cases i) auto
      with Cons.prems have "j < length xs" "xs ! j = t" by simp_all
      then have "t \<in> set xs" by (auto simp: in_set_conv_nth)
      with z show False by (simp add: count_list_0_iff)
    qed
    with True show ?thesis by simp
  next
    case False
    with Cons.prems obtain j where j: "i = Suc j" by (cases i) auto
    with Cons.prems False have "find_stream t xs = Some j"
      by (intro Cons.IH) simp_all
    with False j show ?thesis by simp
  qed
qed








section \<open>Rolling playlist of the segmenter\<close>




lemma count_segments_every_second:
  "count_segments 1 0 [0, 1000, 2000, 3000, 4000, 5000] = 6"
  by simp





section \<open>Results of a transcode call\<close>

lemma Transcode_nil:
  assumes "fst (Transcode rt em input ps wd) = Returns None"
  shows "\<exists>params. params \<noteq> []
       \<and> fst (build_params input 0 ps (wd\<lparr>cstrings := cstrings wd + 1\<rparr>)) = Inr params
       \<and> calls (snd (Transcode rt em input ps wd)) = calls wd @ [Call_lpms_transcode input params]
       \<and> (rt (Call_lpms_transcode input params) = 0
           \<or> em (rt (Call_lpms_transcode input params)) = None)"
proof -
  obtain r wd1 where b: "build_params input 0 ps (wd\<lparr>cstrings := cstrings wd + 1\<rparr>) = (r, wd1)"
    by (cases "build_params input 0 ps (wd\<lparr>cstrings := cstrings wd + 1\<rparr>)")
  from build_params_calls_aux [OF b] have c: "calls wd1 = calls wd" by simp
  show ?thesis
  proof (cases r)
    case (Inl err)
    with assms b show ?thesis by (simp add: Transcode_def Let_def)
  next
    case (Inr params)
    with assms b have ne: "params \<noteq> []"
      by (auto simp: Transcode_def Let_def split: if_splits)
    from assms b Inr ne c show ?thesis
      by (auto simp: Transcode_def Let_def split: if_splits)
  qed
qed

lemma encode_outputs_Inr:
  "encode_outputs encode outs fs = Inr enc \<Longrightarrow>
   length enc = length outs
   \<and> (\<forall>k<length outs. \<exists>efs. encode (outs ! k) fs = Inr efs \<and> enc ! k = media_info efs)"
proof (induction outs arbitrary: enc)
  case Nil
  then show ?case by simp
next
  case (Cons out outs)
  from Cons.prems obtain efs rest where e: "encode out fs = Inr efs"
    and r: "encode_outputs encode outs fs = Inr rest" and enc: "enc = media_info efs # rest"
    by (auto split: sum.splits)
  from Cons.IH [OF r] have l: "length rest = length outs"
    and a: "\<forall>k<length outs. \<exists>efs. encode (outs ! k) fs = Inr efs \<and> rest ! k = media_info efs"
    by simp_all
  have "\<exists>efs'. encode ((out # outs) ! k) fs = Inr efs' \<and> enc ! k = media_info efs'"
    if "k < length (out # outs)" for k
  proof (cases k)
    case 0
    with e enc show ?thesis by simp
  next
    case (Suc j)
    with that have "j < length outs" by simp
    with a Suc enc show ?thesis by simp
  qed
  with l enc show ?case by simp
qed

lemma encode_outputs_succeeds:
  "\<forall>out \<in> set outs. \<exists>efs. encode out fs = Inr efs \<Longrightarrow>
   \<exists>enc. encode_outputs encode outs fs = Inr enc"
  by (induction outs) auto

lemma media_info_fields:
  "Frames (media_info fs) = length fs"
  "Pixels (media_info fs) = sum_list (map (\<lambda>f. frame_width f * frame_height f) fs)"
  by (simp_all add: media_info_def)

lemma sum_pixels_uniform:
  "\<forall>f \<in> set fs. frame_width f = w \<and> frame_height f = h \<Longrightarrow>
   sum_list (map (\<lambda>f. frame_width f * frame_height f) fs) = length fs * (w * h)"
proof (induction fs)
  case Nil
  show ?case by simp
next
  case (Cons a fs)
  from Cons.prems have a: "frame_width a * frame_height a = w * h" by simp
  from Cons.prems have "\<forall>f \<in> set fs. frame_width f = w \<and> frame_height f = h" by simp
  then have ih: "sum_list (map (\<lambda>f. frame_width f * frame_height f) fs) = length fs * (w * h)"
    by (rule Cons.IH)
  have "sum_list (map (\<lambda>f. frame_width f * frame_height f) (a # fs)) =
        frame_width a * frame_height a + sum_list (map (\<lambda>f. frame_width f * frame_height f) fs)"
    by simp
  also have "\<dots> = w * h + length fs * (w * h)" by (simp only: a ih)
  also have "\<dots> = length (a # fs) * (w * h)" by simp
  finally show ?case .
qed

lemma media_info_uniform:
  assumes "\<forall>f \<in> set fs. frame_width f = w \<and> frame_height f = h"
  shows "Pixels (media_info fs) = Frames (media_info fs) * w * h"
  using sum_pixels_uniform [OF assms] by (simp add: media_info_def)

lemma transcode_Inr:
  assumes "transcode decode encode inp outs = Inr r"
  shows "\<exists>fs. decode inp = Inr fs \<and> Decoded r = media_info fs
       \<and> length (Encoded r) = length outs
       \<and> (\<forall>k<length outs. \<exists>efs. encode (outs ! k) fs = Inr efs
             \<and> Encoded r ! k = media_info efs)"
proof -
  from assms obtain fs enc where d: "decode inp = Inr fs"
    and e: "encode_outputs encode outs fs = Inr enc"
    and r: "r = \<lparr>Decoded = media_info fs, Encoded = enc\<rparr>"
    by (auto simp: transcode_def split: sum.splits)
  from encode_outputs_Inr [OF e] d r show ?thesis by simp
qed

lemma transcode_succeeds:
  assumes "decode inp = Inr fs" and "\<forall>out \<in> set outs. \<exists>efs. encode out fs = Inr efs"
  shows "\<exists>r. transcode decode encode inp outs = Inr r"
proof -
  from encode_outputs_succeeds [where encode = encode and outs = outs and fs = fs, OF assms(2)]
  obtain enc where "encode_outputs encode outs fs = Inr enc" by blast
  with assms(1) show ?thesis by (simp add: transcode_def)
qed

text \<open>
  Claim C4, amended. The Go function \<open>Transcode\<close> returns only an error: it
  returns \<open>nil\<close> after exactly one call of the runtime, whose return code was 0
  or has no error in the table, and it returns no statistics. The operation
  \<open>transcode\<close> of the spec returns, whenever it succeeds, the statistics of
  the call: the number of frames decoded from the input and the sum of their
  widths times heights, and one entry for each output, in the order of the
  outputs, with the number of frames encoded for that output and the sum of
  their widths times heights. It succeeds whenever the input decodes and every
  output encodes. Where all encoded frames of an output have one resolution,
  its pixel count is the frame count times width times height.
\<close>

theorem C4_transcode_results:
  "(fst (Transcode rt em input ps wd) = Returns None \<longrightarrow>
      (\<exists>params. params \<noteq> []
         \<and> calls (snd (Transcode rt em input ps wd)) = calls wd @ [Call_lpms_transcode input params]
         \<and> (rt (Call_lpms_transcode input params) = 0
             \<or> em (rt (Call_lpms_transcode input params)) = None)))
   \<and> (transcode decode encode inp outs = Inr r \<longrightarrow>
        (\<exists>fs. decode inp = Inr fs
           \<and> Frames (Decoded r) = length fs
           \<and> Pixels (Decoded r) = sum_list (map (\<lambda>f. frame_width f * frame_height f) fs)
           \<and> length (Encoded r) = length outs
           \<and> (\<forall>k<length outs. \<exists>efs. encode (outs ! k) fs = Inr efs
                 \<and> Frames (Encoded r ! k) = length efs
                 \<and> Pixels (Encoded r ! k) =
                     sum_list (map (\<lambda>f. frame_width f * frame_height f) efs))))
   \<and> (decode inp = Inr fs' \<and> (\<forall>out \<in> set outs. \<exists>efs. encode out fs' = Inr efs) \<longrightarrow>
        (\<exists>r'. transcode decode encode inp outs = Inr r'))
   \<and> ((\<forall>f \<in> set efs'. frame_width f = w \<and> frame_height f = h) \<longrightarrow>
        Pixels (media_info efs') = Frames (media_info efs') * w * h)"
proof -
  have 1: "\<exists>params. params \<noteq> []
         \<and> calls (snd (Transcode rt em input ps wd)) = calls wd @ [Call_lpms_transcode input params]
         \<and> (rt (Call_lpms_transcode input params) = 0
             \<or> em (rt (Call_lpms_transcode input params)) = None)"
    if "fst (Transcode rt em input ps wd) = Returns None"
    using Transcode_nil [OF that] by blast
  have 2: "\<exists>fs. decode inp = Inr fs
           \<and> Frames (Decoded r) = length fs
           \<and> Pixels (Decoded r) = sum_list (map (\<lambda>f. frame_width f * frame_height f) fs)
           \<and> length (Encoded r) = length outs
           \<and> (\<forall>k<length outs. \<exists>efs. encode (outs ! k) fs = Inr efs
                 \<and> Frames (Encoded r ! k) = length efs
                 \<and> Pixels (Encoded r ! k) =
                     sum_list (map (\<lambda>f. frame_width f * frame_height f) efs))"
    if "transcode decode encode inp outs = Inr r"
  proof -
    from transcode_Inr [OF that] obtain fs where d: "decode inp = Inr fs"
      and dr: "Decoded r = media_info fs" and l: "length (Encoded r) = length outs"
      and a: "\<forall>k<length outs. \<exists>efs. encode (outs ! k) fs = Inr efs
             \<and> Encoded r ! k = media_info efs"
      by blast
    have "\<exists>efs. encode (outs ! k) fs = Inr efs
                 \<and> Frames (Encoded r ! k) = length efs
                 \<and> Pixels (Encoded r ! k) =
                     sum_list (map (\<lambda>f. frame_width f * frame_height f) efs)"
      if "k < length outs" for k
    proof -
      from a that obtain efs where "encode (outs ! k) fs = Inr efs"
        and "Encoded r ! k = media_info efs" by blast
      then show ?thesis by (auto simp: media_info_fields)
    qed
    with d dr l show ?thesis by (auto simp: media_info_fields)
  qed
  have 3: "\<exists>r'. transcode decode encode inp outs = Inr r'"
    if "decode inp = Inr fs' \<and> (\<forall>out \<in> set outs. \<exists>efs. encode out fs' = Inr efs)"
  proof -
    from that have a: "decode inp = Inr fs'"
      and b: "\<forall>out \<in> set outs. \<exists>efs. encode out fs' = Inr efs" by blast+
    show ?thesis
      by (rule transcode_succeeds [where decode = decode and encode = encode and fs = fs',
            OF a b])
  qed
  have 4: "Pixels (media_info efs') = Frames (media_info efs') * w * h"
    if "\<forall>f \<in> set efs'. frame_width f = w \<and> frame_height f = h"
    using that by (rule media_info_uniform)
  from 1 2 3 4 show ?thesis by blast
qed

lemma Transcode_240p_nil:
  "Transcode (\<lambda>c. 0) Map.empty ''t.ts''
      [\<lparr>Resolution = ''426x240'', Bitrate = ''100k'', Framerate = 30\<rparr>]
      \<lparr>calls = [], cstrings = 0\<rparr> =
   (Returns None,
    \<lparr>calls = [Call_lpms_transcode ''t.ts''
        [\<lparr>fname = ''out0t.ts'', fps = \<lparr>num = 30, den = 1\<rparr>,
          width = 426, height = 240, bitrate = 100000\<rparr>]], cstrings = 1\<rparr>)"
  by (simp add: Transcode_def profile_params_240p Let_def)

theorem C4_transcode_results_witness:
  "fst (Transcode (\<lambda>c. 0) Map.empty ''t.ts''
      [\<lparr>Resolution = ''426x240'', Bitrate = ''100k'', Framerate = 30\<rparr>]
      \<lparr>calls = [], cstrings = 0\<rparr>) = Returns None
   \<and> transcode (\<lambda>i :: unit. Inr [\<lparr>frame_width = 1280, frame_height = 720\<rparr>,
                                 \<lparr>frame_width = 1280, frame_height = 720\<rparr>])
        (\<lambda>out fs. Inr (map (\<lambda>f. \<lparr>frame_width = fst out, frame_height = snd out\<rparr>) fs))
        () [(426, 240)]
      = Inr \<lparr>Decoded = \<lparr>Frames = 2, Pixels = 1843200\<rparr>,
             Encoded = [\<lparr>Frames = 2, Pixels = 204480\<rparr>]\<rparr>
   \<and> frame_width \<lparr>frame_width = 426, frame_height = 240\<rparr> = 426
   \<and> frame_height \<lparr>frame_width = 426, frame_height = 240\<rparr> = 240
   \<and> Pixels (media_info [\<lparr>frame_width = 426, frame_height = 240\<rparr>,
                          \<lparr>frame_width = 426, frame_height = 240\<rparr>])
      = Frames (media_info [\<lparr>frame_width = 426, frame_height = 240\<rparr>,
                            \<lparr>frame_width = 426, frame_height = 240\<rparr>]) * 426 * 240"
proof -
  have t: "transcode (\<lambda>i :: unit. Inr [\<lparr>frame_width = 1280, frame_height = 720\<rparr>,
                                 \<lparr>frame_width = 1280, frame_height = 720\<rparr>])
        (\<lambda>out fs. Inr (map (\<lambda>f. \<lparr>frame_width = fst out, frame_height = snd out\<rparr>) fs))
        () [(426, 240)]
      = Inr \<lparr>Decoded = \<lparr>Frames = 2, Pixels = 1843200\<rparr>,
             Encoded = [\<lparr>Frames = 2, Pixels = 204480\<rparr>]\<rparr>"
    by (simp add: transcode_def media_info_def)
  show ?thesis
    using C4_transcode_results [where rt = "\<lambda>c. 0" and em = Map.empty and input = "''t.ts''"
        and ps = "[\<lparr>Resolution = ''426x240'', Bitrate = ''100k'', Framerate = 30\<rparr>]"
        and wd = "\<lparr>calls = [], cstrings = 0\<rparr>"
        and decode = "\<lambda>i :: unit. Inr [\<lparr>frame_width = 1280, frame_height = 720\<rparr>,
                                 \<lparr>frame_width = 1280, frame_height = 720\<rparr>]"
        and encode = "\<lambda>out fs. Inr (map (\<lambda>f. \<lparr>frame_width = fst out, frame_height = snd out\<rparr>) fs)"
        and inp = "()" and outs = "[(426, 240)]"
        and r = "\<lparr>Decoded = \<lparr>Frames = 2, Pixels = 1843200\<rparr>,
             Encoded = [\<lparr>Frames = 2, Pixels = 204480\<rparr>]\<rparr>"
        and fs' = "[\<lparr>frame_width = 1280, frame_height = 720\<rparr>,
                                 \<lparr>frame_width = 1280, frame_height = 720\<rparr>]"
        and efs' = "[\<lparr>frame_width = 426, frame_height = 240\<rparr>,
                  \<lparr>frame_width = 426, frame_height = 240\<rparr>]"
        and w = 426 and h = 240]
      t Transcode_240p_nil
    by simp
qed

text \<open>
  Claim C4 as stated fails on the Go function \<open>Transcode\<close>: a successful call
  returns \<open>nil\<close> and nothing else; the frame and pixel counts stay in the
  runtime.
\<close>

theorem C4_Transcode_returns_only_nil:
  "Transcode (\<lambda>c. 0) Map.empty ''t.ts''
      [\<lparr>Resolution = ''426x240'', Bitrate = ''100k'', Framerate = 30\<rparr>]
      \<lparr>calls = [], cstrings = 0\<rparr> =
   (Returns None,
    \<lparr>calls = [Call_lpms_transcode ''t.ts''
        [\<lparr>fname = ''out0t.ts'', fps = \<lparr>num = 30, den = 1\<rparr>,
          width = 426, height = 240, bitrate = 100000\<rparr>]], cstrings = 1\<rparr>)"
  by (simp add: Transcode_def profile_params_def parse_bitrate_def Atoi_def is_digit_def
      digit_val_def oname_def Itoa.simps [of 0] digit_char_def Let_def)

end
